theory Spec2Isabelle
  imports Main
begin

section \<open>Python values and string operations\<close>

text \<open>
  The values that travel through \<^verbatim>\<open>imprint\<close> and \<^verbatim>\<open>read\<close>: \<^verbatim>\<open>None\<close>, booleans,
  unbounded integers, text, lists and dictionaries with text keys. A dictionary is kept
  in insertion order, as Python keeps it. Floating point numbers are not represented.
  A \<^typ>\<open>string\<close> stands for a Python \<^verbatim>\<open>str\<close> whose code points are below 256.
\<close>

datatype pyval =
    PNone
  | PBool bool
  | PInt int
  | PStr string
  | PList "pyval list"
  | PDict "(string \<times> pyval) list"

type_synonym pydict = "(string \<times> pyval) list"

text \<open>\<^verbatim>\<open>d[k] = v\<close>: an existing key keeps its position, a new key goes last.\<close>

fun dict_setitem :: "pydict \<Rightarrow> string \<Rightarrow> pyval \<Rightarrow> pydict" where
  "dict_setitem [] k v = [(k, v)]"
| "dict_setitem (p # ps) k v = (if fst p = k then (k, v) # ps else p # dict_setitem ps k v)"


text \<open>Truth value of an object, as \<^verbatim>\<open>if x\<close> and \<^verbatim>\<open>not x\<close> test it.\<close>

fun truthy :: "pyval \<Rightarrow> bool" where
  "truthy PNone = False"
| "truthy (PBool b) = b"
| "truthy (PInt i) = (i \<noteq> 0)"
| "truthy (PStr s) = (s \<noteq> [])"
| "truthy (PList xs) = (xs \<noteq> [])"
| "truthy (PDict kvs) = (kvs \<noteq> [])"

text \<open>\<^verbatim>\<open>str.isspace\<close> on one character (code points below 256).\<close>

definition isspace :: "char \<Rightarrow> bool" where
  "isspace c = (c \<in> set [CHR 0x09, CHR 0x0A, CHR 0x0B, CHR 0x0C, CHR 0x0D,
                           CHR 0x1C, CHR 0x1D, CHR 0x1E, CHR 0x1F, CHR 0x20,
                           CHR 0x85, CHR 0xA0])"

text \<open>\<^verbatim>\<open>s.strip()\<close> and \<^verbatim>\<open>s.strip(chars)\<close>.\<close>

definition strip :: "string \<Rightarrow> string" where
  "strip s = rev (dropWhile isspace (rev (dropWhile isspace s)))"

definition strip_chars :: "string \<Rightarrow> string \<Rightarrow> string" where
  "strip_chars cs s =
     rev (dropWhile (\<lambda>c. c \<in> set cs) (rev (dropWhile (\<lambda>c. c \<in> set cs) s)))"

text \<open>\<^verbatim>\<open>s.startswith(p)\<close> and \<^verbatim>\<open>s.endswith(p)\<close>.\<close>

definition startswith :: "string \<Rightarrow> string \<Rightarrow> bool" where
  "startswith s p = (take (length p) s = p)"

definition endswith :: "string \<Rightarrow> string \<Rightarrow> bool" where
  "endswith s p = (length p \<le> length s \<and> drop (length s - length p) s = p)"

text \<open>
  \<^verbatim>\<open>s.split(sep)\<close> for a separator of at least one character \<open>c # cs\<close>: the pieces
  between the occurrences of the separator, found from the left.
\<close>

function split :: "char \<Rightarrow> string \<Rightarrow> string \<Rightarrow> string list" where
  "split c cs [] = [[]]"
| "split c cs (x # xs) =
     (if x = c \<and> take (length cs) xs = cs
      then [] # split c cs (drop (length cs) xs)
      else (case split c cs xs of
              [] \<Rightarrow> [[x]]
            | p # ps \<Rightarrow> (x # p) # ps))"
  by pat_completeness auto
termination
  by (relation "measure (\<lambda>(c, cs, s). length s)") auto


definition CRLF :: string where
  "CRLF = [CHR 0x0D, CHR 0x0A]"



text \<open>\<^verbatim>\<open>str(i)\<close> for an integer: its decimal digits, with a minus sign when negative.\<close>

definition digit_char :: "nat \<Rightarrow> char" where
  "digit_char d = ''0123456789'' ! d"

function str_nat :: "nat \<Rightarrow> string" where
  "str_nat n = (if n < 10 then [digit_char n] else str_nat (n div 10) @ [digit_char (n mod 10)])"
  by pat_completeness auto
termination
  by (relation "measure id") auto

declare str_nat.simps [simp del]


text \<open>
  \<^verbatim>\<open>format % iteration\<close> for the format strings of the shape \<^verbatim>\<open>pre%0Nd post\<close>: text
  without a percent sign, one conversion \<^verbatim>\<open>%d\<close> with an optional zero flag and an
  optional width, and text without a percent sign. \<open>parse_format\<close> is \<open>None\<close> on
  every other format string, and such a format string is outside this model.
  With the zero flag the padding goes between the sign and the digits, without it blanks
  go in front.
\<close>

definition isdigit :: "char \<Rightarrow> bool" where
  "isdigit c = (c \<in> set ''0123456789'')"

definition digit_val :: "char \<Rightarrow> nat" where
  "digit_val c =
     (case map_of (zip ''0123456789'' [0, 1, 2, 3, 4, 5, 6, 7, 8, 9]) c of
        None \<Rightarrow> 0
      | Some d \<Rightarrow> d)"

definition nat_of_digits :: "string \<Rightarrow> nat" where
  "nat_of_digits ds = foldl (\<lambda>n c. 10 * n + digit_val c) 0 ds"

record format_spec =
  fmt_pre :: string
  fmt_zero :: bool
  fmt_width :: nat
  fmt_post :: string

definition parse_format :: "string \<Rightarrow> format_spec option" where
  "parse_format fmt =
     (let pre = takeWhile (\<lambda>c. c \<noteq> CHR ''%'') fmt;
          rest = dropWhile (\<lambda>c. c \<noteq> CHR ''%'') fmt
      in case rest of
           [] \<Rightarrow> None
         | _ # spec \<Rightarrow>
             let zeros = takeWhile (\<lambda>c. c = CHR ''0'') spec;
                 spec1 = dropWhile (\<lambda>c. c = CHR ''0'') spec;
                 digits = takeWhile isdigit spec1;
                 spec2 = dropWhile isdigit spec1
             in case spec2 of
                  [] \<Rightarrow> None
                | conv # post \<Rightarrow>
                    if conv = CHR ''d'' \<and> CHR ''%'' \<notin> set post
                    then Some \<lparr>fmt_pre = pre, fmt_zero = (zeros \<noteq> []),
                               fmt_width = nat_of_digits digits, fmt_post = post\<rparr>
                    else None)"

definition format_int :: "format_spec \<Rightarrow> int \<Rightarrow> string" where
  "format_int sp i =
     (let sign = (if i < 0 then ''-'' else []);
          body = str_nat (nat \<bar>i\<bar>);
          pad = fmt_width sp - (length sign + length body)
      in fmt_pre sp
         @ (if fmt_zero sp then sign @ replicate pad CHR ''0'' @ body
            else replicate pad CHR '' '' @ sign @ body)
         @ fmt_post sp)"

definition py_format :: "string \<Rightarrow> int \<Rightarrow> string option" where
  "py_format fmt i = map_option (\<lambda>sp. format_int sp i) (parse_format fmt)"

section \<open>Exceptions and the limits of the interpreter\<close>

text \<open>
  The exceptions the modelled functions raise. \<open>OutsideModel\<close> is not a Python exception:
  it marks a format string that \<open>parse_format\<close> does not cover.
\<close>

datatype error = RuntimeError | AttributeError | ValueError | RecursionError | OutsideModel


section \<open>The JSON encoder\<close>






definition first_error :: "error option list \<Rightarrow> error option" where
  "first_error es = (case filter (\<lambda>e. e \<noteq> None) es of [] \<Rightarrow> None | e # rest \<Rightarrow> e)"


section \<open>A JSON decoder\<close>

text \<open>
  \<^verbatim>\<open>read\<close> takes the decoder as a parameter. \<open>json_loads\<close> is a decoder to put there:
  it follows \<^verbatim>\<open>json.loads\<close> on the texts whose values are values of \<^typ>\<open>pyval\<close>. It
  yields \<open>None\<close> on a malformed text, and also on a text with a number that has a
  fraction or an exponent, with a non-finite constant or with an escape of a code
  point above 255, which \<^verbatim>\<open>json.loads\<close> accepts. A repeated key of an object keeps its first
  place and its last value. The recursion runs on fuel; the length of the text is enough.
\<close>

definition is_ws :: "char \<Rightarrow> bool" where
  "is_ws c = (c \<in> set [CHR '' '', CHR 0x09, CHR 0x0A, CHR 0x0D])"

definition skip_ws :: "string \<Rightarrow> string" where
  "skip_ws s = dropWhile is_ws s"

definition hex_val :: "char \<Rightarrow> nat option" where
  "hex_val c =
     (if isdigit c then Some (digit_val c)
      else if c = CHR ''a'' \<or> c = CHR ''A'' then Some 10
      else if c = CHR ''b'' \<or> c = CHR ''B'' then Some 11
      else if c = CHR ''c'' \<or> c = CHR ''C'' then Some 12
      else if c = CHR ''d'' \<or> c = CHR ''D'' then Some 13
      else if c = CHR ''e'' \<or> c = CHR ''E'' then Some 14
      else if c = CHR ''f'' \<or> c = CHR ''F'' then Some 15
      else None)"

definition hex4 :: "string \<Rightarrow> nat option" where
  "hex4 s =
     (case map hex_val s of
        [Some a, Some b, Some c, Some d] \<Rightarrow> Some (((a * 16 + b) * 16 + c) * 16 + d)
      | _ \<Rightarrow> None)"

definition unescape :: "char \<Rightarrow> char option" where
  "unescape e =
     (if e = CHR 0x22 then Some CHR 0x22
      else if e = CHR 0x5C then Some CHR 0x5C
      else if e = CHR ''/'' then Some CHR ''/''
      else if e = CHR ''b'' then Some CHR 0x08
      else if e = CHR ''f'' then Some CHR 0x0C
      else if e = CHR ''n'' then Some CHR 0x0A
      else if e = CHR ''r'' then Some CHR 0x0D
      else if e = CHR ''t'' then Some CHR 0x09
      else None)"

text \<open>The text of a string after its opening quote: the decoded text and what follows.\<close>

function scan_string :: "string \<Rightarrow> string \<Rightarrow> (string \<times> string) option" where
  "scan_string acc [] = None"
| "scan_string acc (c # cs) =
     (if c = CHR 0x22 then Some (rev acc, cs)
      else if c = CHR 0x5C then
        (case cs of
           [] \<Rightarrow> None
         | e # es \<Rightarrow>
             if e = CHR ''u'' then
               (case hex4 (take 4 es) of
                  None \<Rightarrow> None
                | Some n \<Rightarrow> if n < 256 then scan_string (char_of n # acc) (drop 4 es) else None)
             else
               (case unescape e of
                  None \<Rightarrow> None
                | Some ch \<Rightarrow> scan_string (ch # acc) es))
      else if (of_char c :: nat) < 32 then None
      else scan_string (c # acc) cs)"
  by pat_completeness auto
termination
  by (relation "measure (\<lambda>(acc, s). length s)") auto

text \<open>An integer at the front of a text; \<open>None\<close> when a fraction or an exponent follows.\<close>

definition float_tail :: "string \<Rightarrow> bool" where
  "float_tail r =
     (case r of
        [] \<Rightarrow> False
      | c # r1 \<Rightarrow>
          if c = CHR ''.'' then (case r1 of [] \<Rightarrow> False | d # r2 \<Rightarrow> isdigit d)
          else if c = CHR ''e'' \<or> c = CHR ''E'' then
            (case r1 of
               [] \<Rightarrow> False
             | d # r2 \<Rightarrow>
                 if d = CHR ''+'' \<or> d = CHR ''-''
                 then (case r2 of [] \<Rightarrow> False | d2 # r3 \<Rightarrow> isdigit d2)
                 else isdigit d)
          else False)"

definition scan_number :: "string \<Rightarrow> (pyval \<times> string) option" where
  "scan_number s =
     (let neg = (s \<noteq> [] \<and> hd s = CHR ''-'');
          s1 = (if neg then tl s else s)
      in case s1 of
           [] \<Rightarrow> None
         | d # r \<Rightarrow>
             if \<not> isdigit d then None
             else
               let ds = (if d = CHR ''0'' then [d] else d # takeWhile isdigit r);
                   rest = (if d = CHR ''0'' then r else dropWhile isdigit r);
                   n = int (nat_of_digits ds)
               in if float_tail rest then None
                  else Some (PInt (if neg then - n else n), rest))"

fun parse_value :: "nat \<Rightarrow> string \<Rightarrow> (pyval \<times> string) option"
  and parse_array :: "nat \<Rightarrow> pyval list \<Rightarrow> string \<Rightarrow> (pyval \<times> string) option"
  and parse_object :: "nat \<Rightarrow> pydict \<Rightarrow> string \<Rightarrow> (pyval \<times> string) option" where
  "parse_value 0 s = None"
| "parse_value (Suc n) s =
     (case s of
        [] \<Rightarrow> None
      | c # cs \<Rightarrow>
          if c = CHR 0x22 then
            (case scan_string [] cs of None \<Rightarrow> None | Some (t, r) \<Rightarrow> Some (PStr t, r))
          else if c = CHR ''['' then
            (case skip_ws cs of
               [] \<Rightarrow> None
             | d # r \<Rightarrow> if d = CHR '']'' then Some (PList [], r) else parse_array n [] (d # r))
          else if c = CHR ''{'' then
            (case skip_ws cs of
               [] \<Rightarrow> None
             | d # r \<Rightarrow> if d = CHR ''}'' then Some (PDict [], r) else parse_object n [] (d # r))
          else if startswith s ''null'' then Some (PNone, drop 4 s)
          else if startswith s ''true'' then Some (PBool True, drop 4 s)
          else if startswith s ''false'' then Some (PBool False, drop 5 s)
          else scan_number s)"
| "parse_array 0 acc s = None"
| "parse_array (Suc n) acc s =
     (case parse_value n s of
        None \<Rightarrow> None
      | Some (v, r) \<Rightarrow>
          (case skip_ws r of
             [] \<Rightarrow> None
           | d # r1 \<Rightarrow>
               if d = CHR '','' then parse_array n (acc @ [v]) (skip_ws r1)
               else if d = CHR '']'' then Some (PList (acc @ [v]), r1)
               else None))"
| "parse_object 0 acc s = None"
| "parse_object (Suc n) acc s =
     (case s of
        [] \<Rightarrow> None
      | q # cs \<Rightarrow>
          if q \<noteq> CHR 0x22 then None
          else
            (case scan_string [] cs of
               None \<Rightarrow> None
             | Some (k, r) \<Rightarrow>
                 (case skip_ws r of
                    [] \<Rightarrow> None
                  | d # r1 \<Rightarrow>
                      if d \<noteq> CHR '':'' then None
                      else
                        (case parse_value n (skip_ws r1) of
                           None \<Rightarrow> None
                         | Some (v, r2) \<Rightarrow>
                             (case skip_ws r2 of
                                [] \<Rightarrow> None
                              | e # r3 \<Rightarrow>
                                  if e = CHR '','' then
                                    parse_object n (dict_setitem acc k v) (skip_ws r3)
                                  else if e = CHR ''}''
                                  then Some (PDict (dict_setitem acc k v), r3)
                                  else None)))))"


section \<open>The host's scene graph\<close>

text \<open>
  Modelled from the spec: the node graph provider and the property store of the host
  application (\<^verbatim>\<open>pymxs.runtime\<close>), which are not part of the repository. A node object
  is a handle; the scene maps every handle to the node's name and to its property
  buffer, a text of \<^verbatim>\<open>key=value\<close> lines separated by carriage return and line feed.
  The hierarchy is a tree of parent to children edges below the scene root.
\<close>

record obj =
  Name :: string
  UserPropBuffer :: string

datatype node = Node (handle: nat) (Children: "node list")

record scene =
  RootNode :: node
  objects :: "nat \<Rightarrow> obj"

text \<open>Every node of a hierarchy, parents before children, children left to right.\<close>

fun preorder :: "node \<Rightarrow> node list" where
  "preorder (Node h cs) = Node h cs # concat (map preorder cs)"

text \<open>The number of nodes of a hierarchy.\<close>

fun count_nodes :: "node \<Rightarrow> nat" where
  "count_nodes (Node h cs) = Suc (sum_list (map count_nodes cs))"

text \<open>
  \<^verbatim>\<open>rt.GetNodeByName(name)\<close>: the first node below the scene root that bears the name,
  \<open>None\<close> (the host's \<^verbatim>\<open>undefined\<close>) when there is none.
\<close>

definition scene_nodes :: "scene \<Rightarrow> node list" where
  "scene_nodes scn = concat (map preorder (Children (RootNode scn)))"

definition GetNodeByName :: "scene \<Rightarrow> string \<Rightarrow> node option" where
  "GetNodeByName scn name =
     find (\<lambda>n. Name (objects scn (handle n)) = name) (scene_nodes scn)"



definition buffer_lines :: "string \<Rightarrow> string list" where
  "buffer_lines buf = (if buf = [] then [] else split CHR 0x0D [CHR 0x0A] buf)"

definition line_key :: "string \<Rightarrow> string" where
  "line_key line = strip (takeWhile (\<lambda>c. c \<noteq> CHR ''='') line)"




text \<open>
  Modelled from the spec: \<^verbatim>\<open>rt.GetUserProp(node, key)\<close>, the host's typed read of one
  property, for the functions that take it as a parameter. It yields \<open>PNone\<close> for a key
  the buffer does not hold, a boolean for the texts \<^verbatim>\<open>true\<close> and \<^verbatim>\<open>false\<close>, an
  integer for a text of digits and the text itself otherwise.
\<close>

definition buffer_line :: "string \<Rightarrow> string \<Rightarrow> string option" where
  "buffer_line buf key = find (\<lambda>l. line_key l = key) (buffer_lines buf)"

definition buffer_get :: "string \<Rightarrow> string \<Rightarrow> string option" where
  "buffer_get buf key =
     map_option (\<lambda>l. strip (drop 1 (dropWhile (\<lambda>c. c \<noteq> CHR ''='') l))) (buffer_line buf key)"

definition host_GetUserProp :: "obj \<Rightarrow> string \<Rightarrow> pyval" where
  "host_GetUserProp node key =
     (case buffer_get (UserPropBuffer node) key of
        None \<Rightarrow> PNone
      | Some t \<Rightarrow>
          if t = ''true'' then PBool True
          else if t = ''false'' then PBool False
          else if t \<noteq> [] \<and> list_all isdigit t then PInt (int (nat_of_digits t))
          else PStr t)"

section \<open>Encoding onto a node: \<^verbatim>\<open>imprint\<close>\<close>









section \<open>Decoding a property buffer: \<^verbatim>\<open>read\<close>\<close>






section \<open>Listing nodes by attribute: \<^verbatim>\<open>lsattr\<close>\<close>

text \<open>
  The inner function \<^verbatim>\<open>output_node\<close>: it appends the node to the list \<open>nodes\<close> and
  then calls itself on each child in turn. The list is passed in and returned.
\<close>

fun output_node :: "node \<Rightarrow> node list \<Rightarrow> node list" where
  "output_node (Node h cs) nodes = fold output_node cs (nodes @ [Node h cs])"

text \<open>
  \<open>GetUserProp\<close> is \<^verbatim>\<open>rt.GetUserProp\<close>, the host's typed read of one property, a
  parameter: it yields \<open>PNone\<close> where the host yields \<^verbatim>\<open>undefined\<close>. The argument
  \<open>value\<close> is a text or \<^verbatim>\<open>None\<close>, and so is \<open>root\<close>. A root name that names no node
  makes \<^verbatim>\<open>output_node\<close> read \<^verbatim>\<open>None.Children\<close>, which raises \<^verbatim>\<open>AttributeError\<close>.
  The test \<^verbatim>\<open>if value\<close> holds for a text that is not empty.
\<close>

definition lsattr ::
  "(obj \<Rightarrow> string \<Rightarrow> pyval) \<Rightarrow> scene \<Rightarrow> string \<Rightarrow> string option \<Rightarrow> string option
     \<Rightarrow> error + node list" where
  "lsattr GetUserProp scn attr value root =
     (case (case root of None \<Rightarrow> Some (RootNode scn) | Some r \<Rightarrow> GetNodeByName scn r) of
        None \<Rightarrow> Inl AttributeError
      | Some root_node \<Rightarrow>
          let nodes = output_node root_node [] in
          Inr (if value \<noteq> None \<and> value \<noteq> Some []
               then filter (\<lambda>n. GetUserProp (objects scn (handle n)) attr = PStr (the value)) nodes
               else filter (\<lambda>n. truthy (GetUserProp (objects scn (handle n)) attr)) nodes))"

section \<open>Master containers: \<^verbatim>\<open>get_namespace\<close>\<close>

definition get_namespace ::
  "(obj \<Rightarrow> string \<Rightarrow> pyval) \<Rightarrow> scene \<Rightarrow> string \<Rightarrow> error + (pyval \<times> pyval)" where
  "get_namespace GetUserProp scn container_name =
     (case GetNodeByName scn container_name of
        None \<Rightarrow> Inl RuntimeError
      | Some node \<Rightarrow>
          let name = GetUserProp (objects scn (handle node)) ''name'';
              namespace = GetUserProp (objects scn (handle node)) ''namespace''
          in Inr (namespace, name))"

section \<open>Unique namespaces: \<^verbatim>\<open>unique_namespace\<close>\<close>

text \<open>
  \<^verbatim>\<open>namespace.rsplit(":", 1)\<close> on a text that holds the separator: the text before the
  last occurrence and the text after it.
\<close>

definition rsplit1 :: "char \<Rightarrow> string \<Rightarrow> string \<times> string" where
  "rsplit1 c s =
     (rev (drop 1 (dropWhile (\<lambda>x. x \<noteq> c) (rev s))), rev (takeWhile (\<lambda>x. x \<noteq> c) (rev s)))"

text \<open>
  The \<^verbatim>\<open>while\<close> loop, from the iteration number \<open>iteration\<close> on. It has no bound, so it
  is a partial function: \<open>None\<close> is a loop that never returns. \<open>namespace\<close> is the last
  segment, \<open>start\<close> and \<open>end\<close> are the texts put around the unique name.
\<close>

partial_function (option) namespace_loop ::
  "scene \<Rightarrow> string \<Rightarrow> string \<Rightarrow> string \<Rightarrow> string \<Rightarrow> string \<Rightarrow> string \<Rightarrow> string \<Rightarrow> int
     \<Rightarrow> (error + string) option" where
  "namespace_loop scn namespace format prefix suffix con_suffix start end iteration =
     (case py_format format iteration of
        None \<Rightarrow> Some (Inl OutsideModel)
      | Some number \<Rightarrow>
          let nr_namespace = namespace @ number;
              unique = prefix @ nr_namespace @ suffix;
              container_name = unique @ '':'' @ namespace @ con_suffix
          in if GetNodeByName scn container_name = None
             then Some (Inr (start @ unique @ end))
             else namespace_loop scn namespace format prefix suffix con_suffix start end
                    (iteration + 1))"

text \<open>
  What \<^verbatim>\<open>unique_namespace\<close> does before the loop: the text \<open>start\<close> to put in front of
  the unique name, the last segment of the namespace, and the text \<open>end\<close> to put behind.
  The variable \<^verbatim>\<open>ROOT\<close> of the source is assigned and never read, so it is left out.
\<close>

definition namespace_parts :: "string \<Rightarrow> string \<times> string \<times> string" where
  "namespace_parts namespace0 =
     (let start0 = (if startswith namespace0 '':'' then '':'' else []);
          end = (if endswith namespace0 '':'' then '':'' else []);
          namespace1 = strip_chars '':'' namespace0
      in if CHR '':'' \<in> set namespace1
         then (case rsplit1 CHR '':'' namespace1 of
                 (parents, leaf) \<Rightarrow> (start0 @ parents @ '':'', leaf, end))
         else (start0, namespace1, end))"

definition unique_namespace ::
  "scene \<Rightarrow> string \<Rightarrow> string \<Rightarrow> string \<Rightarrow> string \<Rightarrow> string \<Rightarrow> (error + string) option" where
  "unique_namespace scn namespace0 format prefix suffix con_suffix =
     (case namespace_parts namespace0 of
        (start, namespace, end) \<Rightarrow>
          namespace_loop scn namespace format prefix suffix con_suffix start end 1)"

section \<open>A scene for the examples\<close>

text \<open>
  A scene of seven nodes below the root: two master containers, a group with two
  children, a lamp, a switch and a node whose name ends in \<^verbatim>\<open>CON\<close>.
\<close>

definition demo_objects :: "nat \<Rightarrow> obj" where
  "demo_objects h =
     (if h = 1 then \<lparr>Name = ''bar01:barCON'',
                      UserPropBuffer = ''name=bar'' @ CRLF @ ''namespace=bar01''\<rparr>
      else if h = 2 then \<lparr>Name = ''group'', UserPropBuffer = []\<rparr>
      else if h = 3 then \<lparr>Name = ''bar02:barCON'',
                           UserPropBuffer = ''name=bar'' @ CRLF @ ''namespace=bar02''\<rparr>
      else if h = 4 then \<lparr>Name = ''box'', UserPropBuffer = ''foo=x''\<rparr>
      else if h = 5 then \<lparr>Name = ''lamp'', UserPropBuffer = ''foo=''\<rparr>
      else if h = 6 then \<lparr>Name = ''switch'', UserPropBuffer = ''foo=false''\<rparr>
      else if h = 7 then \<lparr>Name = ''bar03CON'', UserPropBuffer = []\<rparr>
      else \<lparr>Name = [], UserPropBuffer = []\<rparr>)"



definition demo_scene :: scene where
  "demo_scene =
     \<lparr>RootNode = Node 0 [Node 1 [], Node 2 [Node 3 [], Node 4 []], Node 5 [], Node 6 [],
                         Node 7 []],
      objects = demo_objects\<rparr>"

section \<open>Facts about the text operations\<close>





lemma GetNodeByName_None_iff:
  "GetNodeByName scn nm = None \<longleftrightarrow> (\<forall>n\<in>set (scene_nodes scn). Name (objects scn (handle n)) \<noteq> nm)"
  by (auto simp: GetNodeByName_def find_None_iff)

lemma GetNodeByName_Some:
  "GetNodeByName scn nm = Some n \<Longrightarrow> n \<in> set (scene_nodes scn) \<and> Name (objects scn (handle n)) = nm"
  by (auto simp: GetNodeByName_def find_Some_iff)

section \<open>Properties of \<^verbatim>\<open>read\<close>\<close>

















section \<open>Properties of \<^verbatim>\<open>get_namespace\<close>\<close>

text \<open>
  C9. \<^verbatim>\<open>get_namespace\<close> raises \<^verbatim>\<open>RuntimeError\<close> exactly when no node of the scene bears
  the container name. When a node bears it, the result is the pair of what the host
  reads for the property \<^verbatim>\<open>namespace\<close> and for the property \<^verbatim>\<open>name\<close> of the first such
  node, in this order, with nothing done to either value.
\<close>

theorem get_namespace_not_found_iff:
  "((\<forall>n\<in>set (scene_nodes scn). Name (objects scn (handle n)) \<noteq> nm) \<longrightarrow>
      get_namespace G scn nm = Inl RuntimeError) \<and>
   ((\<exists>n\<in>set (scene_nodes scn). Name (objects scn (handle n)) = nm) \<longrightarrow>
      (\<exists>n\<in>set (scene_nodes scn). Name (objects scn (handle n)) = nm \<and>
         GetNodeByName scn nm = Some n \<and>
         get_namespace G scn nm =
           Inr (G (objects scn (handle n)) ''namespace'', G (objects scn (handle n)) ''name'')))"
proof (cases "GetNodeByName scn nm")
  case None
  then show ?thesis
    by (simp add: get_namespace_def GetNodeByName_None_iff [symmetric])
next
  case (Some n)
  then have "n \<in> set (scene_nodes scn) \<and> Name (objects scn (handle n)) = nm"
    by (rule GetNodeByName_Some)
  with Some show ?thesis
    by (auto simp: get_namespace_def)
qed

theorem get_namespace_not_found_iff_witness:
  "get_namespace host_GetUserProp demo_scene ''nothing'' = Inl RuntimeError \<and>
   get_namespace host_GetUserProp demo_scene ''bar02:barCON'' = Inr (PStr ''bar02'', PStr ''bar'')"
proof -
  have nodes: "scene_nodes demo_scene = [Node 1 [], Node 2 [Node 3 [], Node 4 []], Node 3 [], Node 4 [], Node 5 [], Node 6 [],
       Node 7 []]"
    by (simp add: scene_nodes_def demo_scene_def)
  have none: "\<forall>n\<in>set (scene_nodes demo_scene). Name (objects demo_scene (handle n)) \<noteq> ''nothing''"
    by (simp add: nodes) (simp add: demo_scene_def demo_objects_def)
  have some: "\<exists>n\<in>set (scene_nodes demo_scene). Name (objects demo_scene (handle n)) = ''bar02:barCON''"
    by (simp add: nodes) (simp add: demo_scene_def demo_objects_def)
  have found: "GetNodeByName demo_scene ''bar02:barCON'' = Some (Node 3 [])"
    by (simp add: GetNodeByName_def nodes) (simp add: demo_scene_def demo_objects_def)
  have props: "host_GetUserProp (objects demo_scene 3) ''namespace'' = PStr ''bar02''"
    "host_GetUserProp (objects demo_scene 3) ''name'' = PStr ''bar''"
    by (simp_all add: demo_scene_def demo_objects_def host_GetUserProp_def buffer_get_def buffer_line_def
        buffer_lines_def CRLF_def line_key_def strip_def isspace_def isdigit_def)
  show ?thesis
    using get_namespace_not_found_iff [of demo_scene "''nothing''" host_GetUserProp]
      get_namespace_not_found_iff [of demo_scene "''bar02:barCON''" host_GetUserProp]
      none some found props
    by auto
qed

section \<open>Properties of \<^verbatim>\<open>lsattr\<close>\<close>

lemma fold_output_node:
  "(\<And>n acc. n \<in> set cs \<Longrightarrow> output_node n acc = acc @ preorder n) \<Longrightarrow>
   fold output_node cs acc = acc @ concat (map preorder cs)"
  by (induction cs arbitrary: acc) simp_all

lemma output_node_preorder: "output_node n acc = acc @ preorder n"
proof (induction n arbitrary: acc)
  case (Node h cs)
  have "fold output_node cs (acc @ [Node h cs]) = (acc @ [Node h cs]) @ concat (map preorder cs)"
    by (rule fold_output_node) (rule Node.IH)
  then show ?case by simp
qed

lemma length_preorder: "length (preorder n) = count_nodes n"
proof (induction n)
  case (Node h cs)
  have "length (concat (map preorder cs)) = sum_list (map count_nodes cs)"
    using Node.IH by (induction cs) simp_all
  then show ?case by simp
qed

text \<open>
  What \<^verbatim>\<open>lsattr\<close> computes. It starts at the scene root, or at the node a root name
  names, and raises \<^verbatim>\<open>AttributeError\<close> when the root name names no node. Otherwise the
  nodes it visits are the start node and its descendants in depth-first pre-order, each
  once (as many as the hierarchy has nodes), and it returns the visited nodes that pass
  its test, in that order. With a match value that is a text other than the empty one,
  the test is that the host reads exactly this text for the attribute. With no match
  value, and also with the empty text as match value, the test is \<^verbatim>\<open>if\<close> on what the
  host reads for the attribute.
\<close>

lemma lsattr_preorder_filter:
  assumes "start = (case root of None \<Rightarrow> Some (RootNode scn) | Some r \<Rightarrow> GetNodeByName scn r)"
  shows "(start = None \<longrightarrow> lsattr G scn attr val root = Inl AttributeError) \<and>
         (\<forall>rn. start = Some rn \<longrightarrow>
            output_node rn [] = preorder rn \<and>
            length (preorder rn) = count_nodes rn \<and>
            (\<forall>v. val = Some v \<and> v \<noteq> [] \<longrightarrow>
               lsattr G scn attr val root =
                 Inr (filter (\<lambda>n. G (objects scn (handle n)) attr = PStr v) (preorder rn))) \<and>
            (val = None \<or> val = Some [] \<longrightarrow>
               lsattr G scn attr val root =
                 Inr (filter (\<lambda>n. truthy (G (objects scn (handle n)) attr)) (preorder rn))))"
  using assms
  by (auto simp: lsattr_def output_node_preorder length_preorder split: option.splits)

lemma demo_preorder:
  "preorder (RootNode demo_scene) =
     [Node 0 [Node 1 [], Node 2 [Node 3 [], Node 4 []], Node 5 [], Node 6 [], Node 7 []],
      Node 1 [], Node 2 [Node 3 [], Node 4 []], Node 3 [], Node 4 [], Node 5 [], Node 6 [],
      Node 7 []]"
  by (simp add: demo_scene_def)

lemma demo_foo:
  "host_GetUserProp (objects demo_scene 0) ''foo'' = PNone"
  "host_GetUserProp (objects demo_scene 1) ''foo'' = PNone"
  "host_GetUserProp (objects demo_scene (Suc 0)) ''foo'' = PNone"
  "host_GetUserProp (objects demo_scene 2) ''foo'' = PNone"
  "host_GetUserProp (objects demo_scene 3) ''foo'' = PNone"
  "host_GetUserProp (objects demo_scene 4) ''foo'' = PStr ''x''"
  "host_GetUserProp (objects demo_scene 5) ''foo'' = PStr []"
  "host_GetUserProp (objects demo_scene 6) ''foo'' = PBool False"
  "host_GetUserProp (objects demo_scene 7) ''foo'' = PNone"
  by (simp_all add: demo_scene_def demo_objects_def host_GetUserProp_def buffer_get_def buffer_line_def
      buffer_lines_def CRLF_def line_key_def strip_def isspace_def isdigit_def)

lemma lsattr_demo:
  "lsattr host_GetUserProp demo_scene ''foo'' (Some ''x'') None = Inr [Node 4 []] \<and>
   lsattr host_GetUserProp demo_scene ''foo'' None None = Inr [Node 4 []] \<and>
   lsattr host_GetUserProp demo_scene ''foo'' (Some ''y'') None = Inr [] \<and>
   lsattr host_GetUserProp demo_scene ''foo'' None (Some ''nothing'') = Inl AttributeError"
proof -
  have nodes: "scene_nodes demo_scene = [Node 1 [], Node 2 [Node 3 [], Node 4 []], Node 3 [], Node 4 [], Node 5 [], Node 6 [],
       Node 7 []]"
    by (simp add: scene_nodes_def demo_scene_def)
  have none: "GetNodeByName demo_scene ''nothing'' = None"
    by (simp add: GetNodeByName_def nodes) (simp add: demo_scene_def demo_objects_def)
  have 1: "lsattr host_GetUserProp demo_scene ''foo'' (Some ''x'') None = Inr [Node 4 []]"
    using lsattr_preorder_filter [where start = "Some (RootNode demo_scene)" and root = None
        and scn = demo_scene and G = host_GetUserProp and attr = "''foo''" and val = "Some ''x''"]
    by (simp add: demo_preorder demo_foo)
  have 2: "lsattr host_GetUserProp demo_scene ''foo'' None None = Inr [Node 4 []]"
    using lsattr_preorder_filter [where start = "Some (RootNode demo_scene)" and root = None
        and scn = demo_scene and G = host_GetUserProp and attr = "''foo''" and val = None]
    by (simp add: demo_preorder demo_foo)
  have 3: "lsattr host_GetUserProp demo_scene ''foo'' (Some ''y'') None = Inr []"
    using lsattr_preorder_filter [where start = "Some (RootNode demo_scene)" and root = None
        and scn = demo_scene and G = host_GetUserProp and attr = "''foo''" and val = "Some ''y''"]
    by (simp add: demo_preorder demo_foo)
  have 4: "lsattr host_GetUserProp demo_scene ''foo'' None (Some ''nothing'') = Inl AttributeError"
    using lsattr_preorder_filter [where start = None and root = "Some ''nothing''"
        and scn = demo_scene and G = host_GetUserProp and attr = "''foo''" and val = None]
    by (simp add: none)
  show ?thesis
    using 1 2 3 4 by simp
qed

text \<open>
  C8, at the empty text as match value and at no match value. The documentation of
  \<^verbatim>\<open>lsattr\<close> calls \<open>value\<close> the value to match and has every node with the attribute
  returned, whatever its value, when \<open>value\<close> is omitted. The code decides between the two
  by \<^verbatim>\<open>if value\<close> and, with no value, keeps a node by \<^verbatim>\<open>if\<close> on what the host reads. In
  the scene of the examples the attribute \<^verbatim>\<open>foo\<close> is \<^verbatim>\<open>x\<close> on the box, the empty text on
  the lamp and \<^verbatim>\<open>false\<close> on the switch. With the empty text as match value \<^verbatim>\<open>lsattr\<close>
  returns the box, whose attribute is not the empty text, and leaves out the lamp, whose
  attribute is. With no match value it returns the box alone and leaves out the lamp
  and the switch, which have the attribute.
\<close>

theorem lsattr_empty_value:
  "lsattr host_GetUserProp demo_scene ''foo'' (Some []) None = Inr [Node 4 []] \<and>
   lsattr host_GetUserProp demo_scene ''foo'' None None = Inr [Node 4 []] \<and>
   host_GetUserProp (objects demo_scene (handle (Node 4 []))) ''foo'' = PStr ''x'' \<and>
   host_GetUserProp (objects demo_scene (handle (Node 5 []))) ''foo'' = PStr [] \<and>
   host_GetUserProp (objects demo_scene (handle (Node 6 []))) ''foo'' = PBool False"
  by (simp add: lsattr_def output_node_preorder demo_preorder demo_foo)

section \<open>Properties of \<^verbatim>\<open>unique_namespace\<close>\<close>

lemma loop_step_free:
  assumes "parse_format format = Some sp"
    and "GetNodeByName scn (prefix @ ns @ format_int sp i @ suffix @ '':'' @ ns @ con) = None"
  shows "namespace_loop scn ns format prefix suffix con start end i
         = Some (Inr (start @ (prefix @ ns @ format_int sp i @ suffix) @ end))"
  using assms by (subst namespace_loop.simps) (simp add: py_format_def)

lemma loop_step_taken:
  assumes "parse_format format = Some sp"
    and "GetNodeByName scn (prefix @ ns @ format_int sp i @ suffix @ '':'' @ ns @ con) \<noteq> None"
  shows "namespace_loop scn ns format prefix suffix con start end i
         = namespace_loop scn ns format prefix suffix con start end (i + 1)"
  using assms by (subst namespace_loop.simps) (auto simp: py_format_def)

lemma loop_finds_first:
  assumes fmt: "parse_format format = Some sp"
    and free: "GetNodeByName scn (prefix @ ns @ format_int sp (i + int k) @ suffix @ '':'' @ ns @ con) = None"
    and taken: "\<forall>j. i \<le> j \<and> j < i + int k \<longrightarrow>
        GetNodeByName scn (prefix @ ns @ format_int sp j @ suffix @ '':'' @ ns @ con) \<noteq> None"
  shows "namespace_loop scn ns format prefix suffix con start end i
         = Some (Inr (start @ (prefix @ ns @ format_int sp (i + int k) @ suffix) @ end))"
  using free taken
proof (induction k arbitrary: i)
  case 0
  then show ?case using loop_step_free [OF fmt] by simp
next
  case (Suc k)
  have "GetNodeByName scn (prefix @ ns @ format_int sp i @ suffix @ '':'' @ ns @ con) \<noteq> None"
    using Suc.prems(2) by simp
  then have "namespace_loop scn ns format prefix suffix con start end i
         = namespace_loop scn ns format prefix suffix con start end (i + 1)"
    by (rule loop_step_taken [OF fmt])
  moreover have "namespace_loop scn ns format prefix suffix con start end (i + 1)
         = Some (Inr (start @ (prefix @ ns @ format_int sp ((i + 1) + int k) @ suffix) @ end))"
  proof (rule Suc.IH)
    show "GetNodeByName scn (prefix @ ns @ format_int sp (i + 1 + int k) @ suffix @ '':'' @ ns @ con) = None"
      using Suc.prems(1) by (simp add: algebra_simps)
    show "\<forall>j. i + 1 \<le> j \<and> j < i + 1 + int k \<longrightarrow>
        GetNodeByName scn (prefix @ ns @ format_int sp j @ suffix @ '':'' @ ns @ con) \<noteq> None"
      using Suc.prems(2) by simp
  qed
  ultimately show ?case by (simp add: algebra_simps)
qed


lemma rsplit1_shape:
  assumes "c \<in> set s" and "rsplit1 c s = (a, b)"
  shows "s = a @ c # b \<and> c \<notin> set b"
proof -
  let ?t = "takeWhile (\<lambda>x. x \<noteq> c) (rev s)"
  let ?d = "dropWhile (\<lambda>x. x \<noteq> c) (rev s)"
  have "?d \<noteq> []" using assms(1) by simp
  then obtain d where d: "?d = c # d"
    using hd_dropWhile [of "\<lambda>x. x \<noteq> c" "rev s"] by (cases ?d) auto
  have "rev s = ?t @ ?d" by simp
  then have "rev s = ?t @ c # d" using d by simp
  then have "s = rev d @ c # rev ?t"
    by (metis rev_append rev.simps(2) rev_rev_ident append_assoc append_Cons append_Nil)
  moreover have "a = rev d" "b = rev ?t"
    using assms(2) d by (simp_all add: rsplit1_def)
  moreover have "c \<notin> set ?t"
    by (auto dest: set_takeWhileD)
  ultimately show ?thesis by simp
qed

lemma namespace_parts_shape:
  assumes "namespace_parts ns0 = (start, leaf, end)"
  shows "end = (if endswith ns0 '':'' then '':'' else []) \<and> CHR '':'' \<notin> set leaf \<and>
         (\<exists>parents. start = (if startswith ns0 '':'' then '':'' else []) @ parents \<and>
                     strip_chars '':'' ns0 = parents @ leaf)"
proof (cases "CHR '':'' \<in> set (strip_chars '':'' ns0)")
  case False
  with assms show ?thesis
    by (auto simp: namespace_parts_def Let_def)
next
  case True
  obtain a b where ab: "rsplit1 CHR '':'' (strip_chars '':'' ns0) = (a, b)"
    by (cases "rsplit1 CHR '':'' (strip_chars '':'' ns0)")
  from rsplit1_shape [OF True ab]
  have sh: "strip_chars '':'' ns0 = a @ CHR '':'' # b" "CHR '':'' \<notin> set b"
    by simp_all
  from assms True ab have "start = (if startswith ns0 '':'' then '':'' else []) @ a @ '':''"
    "leaf = b" "end = (if endswith ns0 '':'' then '':'' else [])"
    by (simp_all add: namespace_parts_def Let_def)
  with sh show ?thesis by auto
qed

lemma nat_of_digits_snoc: "nat_of_digits (xs @ [c]) = 10 * nat_of_digits xs + digit_val c"
  by (simp add: nat_of_digits_def)

lemma digit_val_digit_char: "d < 10 \<Longrightarrow> digit_val (digit_char d) = d"
proof -
  assume "d < 10"
  then have "d \<in> {0,1,2,3,4,5,6,7,8,9}" by auto
  then show ?thesis
    by (auto simp: digit_val_def digit_char_def)
qed

lemma nat_of_digits_str_nat: "nat_of_digits (str_nat n) = n"
proof (induction n rule: str_nat.induct)
  case (1 n)
  show ?case
  proof (cases "n < 10")
    case True
    then have "str_nat n = [digit_char n]"
      by (subst str_nat.simps) simp
    then show ?thesis
      using True by (simp add: digit_val_digit_char nat_of_digits_def)
  next
    case False
    then have "str_nat n = str_nat (n div 10) @ [digit_char (n mod 10)]"
      by (subst str_nat.simps) simp
    then show ?thesis
      using 1 False by (simp add: nat_of_digits_snoc digit_val_digit_char)
  qed
qed

lemma nat_of_digits_pad:
  "digit_val c = 0 \<Longrightarrow> nat_of_digits (replicate k c @ xs) = nat_of_digits xs"
  by (induction k) (simp_all add: nat_of_digits_def)

lemma format_int_inj:
  assumes "0 \<le> i" "0 \<le> j" "format_int sp i = format_int sp j"
  shows "i = j"
proof -
  let ?p = "\<lambda>i. (if fmt_zero sp then replicate (fmt_width sp - length (str_nat (nat i))) CHR ''0''
                   else replicate (fmt_width sp - length (str_nat (nat i))) CHR '' '') @ str_nat (nat i)"
  have f: "format_int sp x = fmt_pre sp @ ?p x @ fmt_post sp" if "0 \<le> x" for x
    using that by (simp add: format_int_def Let_def)
  have "?p i = ?p j"
    using assms by (simp only: f) simp
  then have "nat_of_digits (?p i) = nat_of_digits (?p j)" by simp
  moreover have "nat_of_digits (?p x) = nat x" for x
    by (simp add: nat_of_digits_pad nat_of_digits_str_nat digit_val_def)
  ultimately show ?thesis using assms by simp
qed


lemma GetNodeByName_None_names:
  "GetNodeByName scn nm = None \<longleftrightarrow>
   nm \<notin> set (map (\<lambda>n. Name (objects scn (handle n))) (scene_nodes scn))"
  by (auto simp: GetNodeByName_None_iff)

lemma exists_unused_name:
  fixes probe :: "int \<Rightarrow> string"
  assumes "inj_on probe {1..int (length names) + 1}"
  shows "\<exists>i. 1 \<le> i \<and> probe i \<notin> set names"
proof (rule ccontr)
  assume "\<not> (\<exists>i. 1 \<le> i \<and> probe i \<notin> set names)"
  then have "probe ` {1..int (length names) + 1} \<subseteq> set names" by auto
  then have "card (probe ` {1..int (length names) + 1}) \<le> card (set names)"
    by (simp add: card_mono)
  moreover have "card (probe ` {1..int (length names) + 1}) = length names + 1"
    using assms by (simp add: card_image)
  moreover have "card (set names) \<le> length names"
    by (rule card_length)
  ultimately show False by simp
qed

lemma probe_inj:
  "inj_on (\<lambda>i. prefix @ ns @ format_int sp i @ suffix @ '':'' @ ns @ con) {1..m}"
proof (rule inj_onI)
  fix i j :: int
  assume "i \<in> {1..m}" "j \<in> {1..m}"
    and "prefix @ ns @ format_int sp i @ suffix @ '':'' @ ns @ con
         = prefix @ ns @ format_int sp j @ suffix @ '':'' @ ns @ con"
  then have "format_int sp i @ (suffix @ '':'' @ ns @ con) = format_int sp j @ (suffix @ '':'' @ ns @ con)"
    by simp
  then have "format_int sp i = format_int sp j"
    by (simp only: append_same_eq)
  with \<open>i \<in> {1..m}\<close> \<open>j \<in> {1..m}\<close> show "i = j"
    using format_int_inj [of i j sp] by simp
qed

lemma least_free_iteration:
  fixes free :: "int \<Rightarrow> bool"
  assumes "\<exists>i. 1 \<le> i \<and> free i"
  shows "\<exists>k. free (1 + int k) \<and> (\<forall>j. 1 \<le> j \<and> j < 1 + int k \<longrightarrow> \<not> free j)"
proof -
  from assms obtain i where i: "1 \<le> i" "free i" by blast
  then have ex: "\<exists>k. free (1 + int k)"
    by (intro exI [of _ "nat (i - 1)"]) simp
  let ?k = "LEAST k. free (1 + int k)"
  have "free (1 + int ?k)" using ex by (rule LeastI_ex)
  moreover have "\<not> free j" if "1 \<le> j" "j < 1 + int ?k" for j
  proof
    assume "free j"
    then have "free (1 + int (nat (j - 1)))" using that by simp
    then have "?k \<le> nat (j - 1)" by (rule Least_le)
    with that show False by simp
  qed
  ultimately show ?thesis by blast
qed

lemma namespace_loop_returns:
  assumes fmt: "parse_format format = Some sp"
  shows "\<exists>i\<ge>1.
    namespace_loop scn ns format prefix suffix con start end 1
      = Some (Inr (start @ (prefix @ ns @ format_int sp i @ suffix) @ end)) \<and>
    GetNodeByName scn (prefix @ ns @ format_int sp i @ suffix @ '':'' @ ns @ con) = None \<and>
    (\<forall>j. 1 \<le> j \<and> j < i \<longrightarrow>
       GetNodeByName scn (prefix @ ns @ format_int sp j @ suffix @ '':'' @ ns @ con) \<noteq> None)"
proof -
  let ?probe = "\<lambda>i. prefix @ ns @ format_int sp i @ suffix @ '':'' @ ns @ con"
  let ?names = "map (\<lambda>n. Name (objects scn (handle n))) (scene_nodes scn)"
  have "\<exists>i. 1 \<le> i \<and> ?probe i \<notin> set ?names"
    by (rule exists_unused_name) (rule probe_inj)
  then have "\<exists>i. 1 \<le> i \<and> GetNodeByName scn (?probe i) = None"
    by (simp only: GetNodeByName_None_names)
  then obtain k where k: "GetNodeByName scn (?probe (1 + int k)) = None"
    "\<forall>j. 1 \<le> j \<and> j < 1 + int k \<longrightarrow> GetNodeByName scn (?probe j) \<noteq> None"
    using least_free_iteration [of "\<lambda>i. GetNodeByName scn (?probe i) = None"] by blast
  have "namespace_loop scn ns format prefix suffix con start end 1
      = Some (Inr (start @ (prefix @ ns @ format_int sp (1 + int k) @ suffix) @ end))"
    using fmt k by (rule loop_finds_first)
  with k show ?thesis
    by (intro exI [of _ "1 + int k"]) simp
qed

text \<open>
  C4. Let \<open>start\<close>, \<open>leaf\<close> and \<open>end\<close> be what \<^verbatim>\<open>unique_namespace\<close> takes from the
  namespace, and let the format string be one of the model. If \<open>i\<close> is the lowest
  iteration number from 1 on whose probe name, the unique name of the iteration followed
  by a colon, the leaf and the container suffix, names no node of the scene, then
  \<^verbatim>\<open>unique_namespace\<close> returns \<open>start\<close>, the unique name of iteration \<open>i\<close> and \<open>end\<close>,
  one after the other. \<open>end\<close> is a colon exactly when the namespace ends with one, and
  \<open>start\<close> is a colon exactly when the namespace starts with one, followed by the parent
  segments of the namespace.
\<close>

theorem unique_namespace_lowest_free:
  assumes "namespace_parts namespace0 = (start, leaf, end)"
    and "parse_format format = Some sp"
    and "1 \<le> i"
    and "GetNodeByName scn (prefix @ leaf @ format_int sp i @ suffix @ '':'' @ leaf @ con_suffix)
         = None"
    and "\<forall>j. 1 \<le> j \<and> j < i \<longrightarrow>
           GetNodeByName scn (prefix @ leaf @ format_int sp j @ suffix @ '':'' @ leaf @ con_suffix)
           \<noteq> None"
  shows "unique_namespace scn namespace0 format prefix suffix con_suffix
           = Some (Inr (start @ (prefix @ leaf @ format_int sp i @ suffix) @ end)) \<and>
         end = (if endswith namespace0 '':'' then '':'' else []) \<and>
         (\<exists>parents. start = (if startswith namespace0 '':'' then '':'' else []) @ parents \<and>
                     strip_chars '':'' namespace0 = parents @ leaf)"
proof -
  have i: "i = 1 + int (nat (i - 1))"
    using assms(3) by simp
  have "namespace_loop scn leaf format prefix suffix con_suffix start end 1
          = Some (Inr (start @ (prefix @ leaf @ format_int sp (1 + int (nat (i - 1))) @ suffix) @ end))"
    using assms(2) assms(4,5) [unfolded i [symmetric]] i
    by (intro loop_finds_first) simp_all
  then have "unique_namespace scn namespace0 format prefix suffix con_suffix
           = Some (Inr (start @ (prefix @ leaf @ format_int sp i @ suffix) @ end))"
    using assms(1) i by (simp add: unique_namespace_def)
  then show ?thesis
    using namespace_parts_shape [OF assms(1)] by simp
qed

lemma demo_nodes:
  "scene_nodes demo_scene =
     [Node 1 [], Node 2 [Node 3 [], Node 4 []], Node 3 [], Node 4 [], Node 5 [], Node 6 [],
      Node 7 []]"
  by (simp add: scene_nodes_def demo_scene_def)

lemma demo_names:
  "map (\<lambda>n. Name (objects demo_scene (handle n))) (scene_nodes demo_scene) =
     [''bar01:barCON'', ''group'', ''bar02:barCON'', ''box'', ''lamp'', ''switch'', ''bar03CON'']"
  by (simp add: demo_nodes) (simp add: demo_scene_def demo_objects_def)

lemma demo_format: "parse_format ''%02d'' = Some \<lparr>fmt_pre = [], fmt_zero = True, fmt_width = 2, fmt_post = []\<rparr>"
  by (simp add: parse_format_def isdigit_def nat_of_digits_def digit_val_def)

lemma demo_format_int:
  "format_int \<lparr>fmt_pre = [], fmt_zero = True, fmt_width = 2, fmt_post = []\<rparr> 1 = ''01''"
  "format_int \<lparr>fmt_pre = [], fmt_zero = True, fmt_width = 2, fmt_post = []\<rparr> 2 = ''02''"
  "format_int \<lparr>fmt_pre = [], fmt_zero = True, fmt_width = 2, fmt_post = []\<rparr> 3 = ''03''"
  by (simp_all add: format_int_def str_nat.simps digit_char_def)

lemma below_three: "(1::int) \<le> j \<and> j < 3 \<Longrightarrow> j = 1 \<or> j = 2"
  by arith

lemma demo_probes:
  "GetNodeByName demo_scene (''bar'' @ ''01'' @ [] @ '':'' @ ''bar'' @ ''CON'') \<noteq> None"
  "GetNodeByName demo_scene (''bar'' @ ''02'' @ [] @ '':'' @ ''bar'' @ ''CON'') \<noteq> None"
  "GetNodeByName demo_scene (''bar'' @ ''03'' @ [] @ '':'' @ ''bar'' @ ''CON'') = None"
  by (simp_all add: GetNodeByName_None_names demo_names)

theorem unique_namespace_lowest_free_witness:
  "unique_namespace demo_scene ''bar'' ''%02d'' [] [] ''CON'' = Some (Inr ''bar03'')"
proof -
  let ?sp = "\<lparr>fmt_pre = [], fmt_zero = True, fmt_width = 2, fmt_post = []\<rparr>"
  have parts: "namespace_parts ''bar'' = ([], ''bar'', [])"
    by (simp add: namespace_parts_def startswith_def endswith_def strip_chars_def)
  have three: "(1::int) \<le> 3" by simp
  have free: "GetNodeByName demo_scene ([] @ ''bar'' @ format_int ?sp 3 @ [] @ '':'' @ ''bar'' @ ''CON'')
                = None"
    using demo_probes(3) by (simp add: demo_format_int)
  have taken: "\<forall>j. 1 \<le> j \<and> j < 3 \<longrightarrow>
      GetNodeByName demo_scene ([] @ ''bar'' @ format_int ?sp j @ [] @ '':'' @ ''bar'' @ ''CON'')
        \<noteq> None"
    using demo_probes(1,2) by (auto dest!: below_three simp: demo_format_int)
  show ?thesis
    using unique_namespace_lowest_free [OF parts demo_format three free taken]
    by (simp add: demo_format_int)
qed

text \<open>
  C5, as the code has it. For a format string of the model \<^verbatim>\<open>unique_namespace\<close> always
  returns, and what it returns is \<open>start\<close>, a unique name and \<open>end\<close>, where the probe name
  that the loop tested, the unique name followed by a colon, the leaf and the container
  suffix, names no node of the scene. The returned text followed by the container suffix
  is not what the loop tests. The parent segments are carried into the result as they
  are: \<open>start\<close> is the leading colon, if the namespace has one, and then the text of the
  stripped namespace up to its last segment, which has no colon.
\<close>

theorem unique_namespace_probe_unused:
  assumes "namespace_parts namespace0 = (start, leaf, end)"
    and "parse_format format = Some sp"
  shows "\<exists>i unique. 1 \<le> i \<and> unique = prefix @ leaf @ format_int sp i @ suffix \<and>
           unique_namespace scn namespace0 format prefix suffix con_suffix
             = Some (Inr (start @ unique @ end)) \<and>
           GetNodeByName scn (unique @ '':'' @ leaf @ con_suffix) = None \<and>
           CHR '':'' \<notin> set leaf \<and>
           (\<exists>parents. start = (if startswith namespace0 '':'' then '':'' else []) @ parents \<and>
                       strip_chars '':'' namespace0 = parents @ leaf)"
proof -
  from namespace_loop_returns [OF assms(2), of scn leaf prefix suffix con_suffix start "end"]
  obtain i where i: "1 \<le> i"
    "namespace_loop scn leaf format prefix suffix con_suffix start end 1
       = Some (Inr (start @ (prefix @ leaf @ format_int sp i @ suffix) @ end))"
    "GetNodeByName scn (prefix @ leaf @ format_int sp i @ suffix @ '':'' @ leaf @ con_suffix) = None"
    by blast
  have "unique_namespace scn namespace0 format prefix suffix con_suffix
          = Some (Inr (start @ (prefix @ leaf @ format_int sp i @ suffix) @ end))"
    using assms(1) i(2) by (simp add: unique_namespace_def)
  with i(1,3) namespace_parts_shape [OF assms(1)] show ?thesis
    by (intro exI [of _ i] exI [of _ "prefix @ leaf @ format_int sp i @ suffix"]) simp
qed

theorem unique_namespace_probe_unused_witness:
  "\<exists>i unique. 1 \<le> i \<and>
     unique = ''bar'' @ format_int \<lparr>fmt_pre = [], fmt_zero = True, fmt_width = 2, fmt_post = []\<rparr> i
                @ ''_NS'' \<and>
     unique_namespace demo_scene '':a:bar:'' ''%02d'' [] ''_NS'' ''CON''
       = Some (Inr ('':a:'' @ unique @ '':'')) \<and>
     GetNodeByName demo_scene (unique @ '':'' @ ''bar'' @ ''CON'') = None"
proof -
  have parts: "namespace_parts '':a:bar:'' = ('':a:'', ''bar'', '':'')"
    by (simp add: namespace_parts_def startswith_def endswith_def strip_chars_def rsplit1_def)
  show ?thesis
    using unique_namespace_probe_unused [OF parts demo_format, of "[]" "''_NS''" demo_scene "''CON''"]
    by auto
qed

lemma demo_unique_bar:
  "unique_namespace demo_scene ''bar'' ''%02d'' [] [] ''CON'' = Some (Inr ''bar03'')"
proof -
  let ?sp = "\<lparr>fmt_pre = [], fmt_zero = True, fmt_width = 2, fmt_post = []\<rparr>"
  have parts: "namespace_parts ''bar'' = ([], ''bar'', [])"
    by (simp add: namespace_parts_def startswith_def endswith_def strip_chars_def)
  have free: "GetNodeByName demo_scene
      ([] @ ''bar'' @ format_int ?sp (1 + int 2) @ [] @ '':'' @ ''bar'' @ ''CON'') = None"
    using demo_probes(3) by (simp add: demo_format_int)
  have taken: "\<forall>j. 1 \<le> j \<and> j < 1 + int 2 \<longrightarrow>
      GetNodeByName demo_scene ([] @ ''bar'' @ format_int ?sp j @ [] @ '':'' @ ''bar'' @ ''CON'')
        \<noteq> None"
    using demo_probes(1,2) by (auto dest!: below_three simp: demo_format_int)
  have "namespace_loop demo_scene ''bar'' ''%02d'' [] [] ''CON'' [] [] 1
          = Some (Inr ([] @ ([] @ ''bar'' @ format_int ?sp (1 + int 2) @ []) @ []))"
    using demo_format free taken by (rule loop_finds_first)
  then show ?thesis
    using parts by (simp add: unique_namespace_def demo_format_int)
qed

theorem unique_namespace_suffix_counterexample:
  "unique_namespace demo_scene ''bar'' ''%02d'' [] [] ''CON'' = Some (Inr ''bar03'') \<and>
   GetNodeByName demo_scene (''bar03'' @ ''CON'') = Some (Node 7 [])"
  using demo_unique_bar
  by (simp add: GetNodeByName_def demo_nodes) (simp add: demo_scene_def demo_objects_def)

section \<open>Facts about the property buffer\<close>

















lemma dropWhile_sep: "c \<notin> set k \<Longrightarrow> dropWhile (\<lambda>x. x \<noteq> c) (k @ c # t) = c # t"
  by (induction k) auto



lemma first_error_None: "first_error es = None \<longleftrightarrow> (\<forall>e\<in>set es. e = None)"
proof -
  have "first_error es = None \<longleftrightarrow> filter (\<lambda>e. e \<noteq> None) es = []"
  proof (cases "filter (\<lambda>e. e \<noteq> None) es")
    case Nil
    then show ?thesis by (simp add: first_error_def)
  next
    case (Cons e rest)
    then have "e \<in> set (filter (\<lambda>e. e \<noteq> None) es)" by simp
    then have "e \<noteq> None" by simp
    with Cons show ?thesis by (simp add: first_error_def)
  qed
  then show ?thesis by (auto simp: filter_empty_conv)
qed






























section \<open>Properties of \<^verbatim>\<open>imprint\<close>\<close>














section \<open>Facts about the written values\<close>

























section \<open>The round trip of \<^verbatim>\<open>imprint\<close> and \<^verbatim>\<open>read\<close>\<close>










end
